theory Spec2Isabelle
  imports Complex_Main
begin

section \<open>The WARP sampling and update kernel of mrec (mrec/mf/warp\_fast.pyx)\<close>

text \<open>
  The module is Cython. Its functions are embedded as HOL functions of the same names.

  \<^item> Ratings and factor entries are doubles in the source and \<open>real\<close> here: comparisons,
    sums, products, quotients and the square root of doubles are exact, and no value
    leaves the range of a double. The locals \<open>r\<close> and \<open>p\<close> are declared \<open>cdef float\<close>:
    the value assigned to them is rounded to single precision (\<open>c_float\<close>, round to
    nearest, ties to even, with the subnormal range; a magnitude beyond the range of a
    float is not modelled), and read back as a double.
  \<^item> \<open>rand()\<close> is the only source of nondeterminism. A run is determined by the sequence
    of values that the successive calls of \<open>rand()\<close> return, the \<open>tape\<close>. Every sampling
    function takes the tape and returns what is left of it. The three \<open>while True\<close> loops
    have no bound in the source: a loop that has used up the tape without leaving has
    not returned within those draws, which is the outcome \<open>Starved\<close>. The code returns in
    a run exactly when some finite tape makes the model return.
  \<^item> A raised Python exception is the outcome \<open>Raises\<close>. The module is compiled with
    \<open>boundscheck=False\<close>: an index outside a typed buffer (\<open>vals\<close>, \<open>indices\<close>, \<open>indptr\<close>
    indexed by a C integer) reads foreign memory. The embedding says nothing about what
    follows and reports such a read as the outcome \<open>Raises BufferOverrun\<close>.
  \<^item> Indexing with a Python object (\<open>U[u]\<close>, \<open>V[i]\<close>, \<open>V[j]\<close>, \<open>vals[ix]\<close> inside
    \<open>sample_negative_example\<close>, \<open>F[row]\<close>, \<open>deltas[i]\<close>) is numpy indexing: an index
    \<open>k < 0\<close> counts from the end, and an index out of range raises \<open>IndexError\<close>.
  \<^item> Counts, offsets and the entries of the CSR arrays \<open>indices\<close> and \<open>indptr\<close> are \<open>nat\<close>.
    The C locals declared \<open>unsigned int\<close> hold them exactly as long as they stay below
    \<open>2 ^ 32\<close>; array lengths and \<open>max_trials\<close> are taken below that bound. The one local
    that the code can drive beyond it is the accumulator \<open>tot_trials\<close>, whose
    wrap-around is written out.
\<close>

type_synonym matrix = "real list list"

type_synonym tape = "nat list"

datatype error =
  ZeroDivisionError | IndexError | ValueError | AssertionError | BufferOverrun

datatype 'a result = Returns 'a | Raises error | Starved

subsection \<open>Single precision\<close>

text \<open>
  The conversion of a double to a C \<open>float\<close>: 24 significant bits, exponents from -126.
  \<open>float_exponent x\<close> is the exponent \<open>e\<close> of the binade \<open>2 ^ e \<le> |x| < 2 ^ (e + 1)\<close>, not
  below -126 (found by halving, respectively doubling, \<open>|x|\<close>); the floats of that binade
  are the multiples of \<open>2 ^ (e - 23)\<close>, and \<open>c_float x\<close> is the multiple nearest to \<open>x\<close>,
  the even one when two are equally near.
\<close>

definition pow2 :: "int \<Rightarrow> real" where
  "pow2 e = (if 0 \<le> e then 2 ^ nat e else 1 / 2 ^ nat (- e))"

function binade_up :: "real \<Rightarrow> int \<Rightarrow> int" where
  "binade_up x e = (if 2 \<le> x then binade_up (x / 2) (e + 1) else e)"
  by pat_completeness auto
termination
proof (relation "measure (\<lambda>(x, e). nat \<lceil>x\<rceil>)")
  show "wf (measure (\<lambda>(x, e). nat \<lceil>x\<rceil>))" by simp
next
  fix x :: real and e :: int
  assume "2 \<le> x"
  then have "x / 2 \<le> x - 1" by simp
  then have "\<lceil>x / 2\<rceil> \<le> \<lceil>x - 1\<rceil>" by (rule ceiling_mono)
  also have "\<dots> = \<lceil>x\<rceil> - 1" by simp
  finally have "\<lceil>x / 2\<rceil> < \<lceil>x\<rceil>" by simp
  moreover from \<open>2 \<le> x\<close> have "0 < \<lceil>x\<rceil>" by simp
  ultimately show "((x / 2, e + 1), (x, e)) \<in> measure (\<lambda>(x, e). nat \<lceil>x\<rceil>)"
    by simp
qed

function binade_down :: "real \<Rightarrow> int \<Rightarrow> int" where
  "binade_down x e = (if x < 1 \<and> - 126 < e then binade_down (2 * x) (e - 1) else e)"
  by pat_completeness auto
termination
  by (relation "measure (\<lambda>(x, e). nat (e + 126))") auto

declare binade_up.simps [simp del] binade_down.simps [simp del]

definition float_exponent :: "real \<Rightarrow> int" where
  "float_exponent x = (if 1 \<le> \<bar>x\<bar> then binade_up \<bar>x\<bar> 0 else binade_down \<bar>x\<bar> 0)"

definition round_half_even :: "real \<Rightarrow> int" where
  "round_half_even y =
     (if y - of_int \<lfloor>y\<rfloor> < 1 / 2 then \<lfloor>y\<rfloor>
      else if 1 / 2 < y - of_int \<lfloor>y\<rfloor> then \<lfloor>y\<rfloor> + 1
      else if even \<lfloor>y\<rfloor> then \<lfloor>y\<rfloor>
      else \<lfloor>y\<rfloor> + 1)"

definition c_float :: "real \<Rightarrow> real" where
  "c_float x =
     of_int (round_half_even (x / pow2 (float_exponent x - 23))) *
       pow2 (float_exponent x - 23)"

subsection \<open>numpy indexing and products\<close>

text \<open>\<open>A[k]\<close> for a Python integer \<open>k\<close> and an array of \<open>n\<close> rows: the position read, if any.\<close>

definition py_index :: "nat \<Rightarrow> int \<Rightarrow> nat option" where
  "py_index n k =
     (if 0 \<le> k \<and> k < int n then Some (nat k)
      else if - int n \<le> k \<and> k < 0 then Some (nat (k + int n))
      else None)"

text \<open>\<open>a.dot(b)\<close> for two vectors: numpy raises \<open>ValueError\<close> when the shapes differ.\<close>

definition dot :: "real list \<Rightarrow> real list \<Rightarrow> error + real" where
  "dot a b =
     (if length a = length b then Inr (sum_list (map2 (*) a b)) else Inl ValueError)"

text \<open>\<open>U[u].dot(V[i])\<close>.\<close>

definition row_dot :: "matrix \<Rightarrow> int \<Rightarrow> matrix \<Rightarrow> int \<Rightarrow> error + real" where
  "row_dot U u V i =
     (case py_index (length U) u of
        None \<Rightarrow> Inl IndexError
      | Some a \<Rightarrow>
          (case py_index (length V) i of
             None \<Rightarrow> Inl IndexError
           | Some b \<Rightarrow> dot (U ! a) (V ! b)))"

subsection \<open>sample\_negative\_example\<close>

text \<open>
  The scan \<open>for jx in xrange(begin,end): if indices[jx] == j: found = 1; break\<close>, over the
  positions \<open>[begin..<end]\<close>: \<open>Inr None\<close> is \<open>found = 0\<close>, \<open>Inr (Some jx)\<close> is \<open>found = 1\<close>
  with the position of the break.
\<close>

fun scan :: "nat list \<Rightarrow> nat \<Rightarrow> nat list \<Rightarrow> error + nat option" where
  "scan indices j [] = Inr None"
| "scan indices j (jx # jxs) =
     (if length indices \<le> jx then Inl BufferOverrun
      else if indices ! jx = j then Inr (Some jx)
      else scan indices j jxs)"

text \<open>
  \<open>num_items\<close> is an untyped parameter, a Python object: \<open>rand() % num_items\<close> is Python's
  remainder, which raises \<open>ZeroDivisionError\<close> for a zero divisor (the directive
  \<open>cdivision\<close> concerns operands that are both C numbers). In \<open>vals[jx] < vals[ix]\<close> the
  index \<open>jx\<close> is a C integer (an unchecked buffer read) and \<open>ix\<close> is a Python object.
\<close>

fun sample_negative_example ::
  "nat \<Rightarrow> real list \<Rightarrow> nat list \<Rightarrow> nat \<Rightarrow> nat \<Rightarrow> int \<Rightarrow> tape \<Rightarrow> (nat \<times> tape) result" where
  "sample_negative_example num_items vals indices begin end ix [] = Starved"
| "sample_negative_example num_items vals indices begin end ix (r # rs) =
     (if num_items = 0 then Raises ZeroDivisionError
      else
        (case scan indices (r mod num_items) [begin..<end] of
           Inl e \<Rightarrow> Raises e
         | Inr None \<Rightarrow> Returns (r mod num_items, rs)
         | Inr (Some jx) \<Rightarrow>
             if length vals \<le> jx then Raises BufferOverrun
             else
               (case py_index (length vals) ix of
                  None \<Rightarrow> Raises IndexError
                | Some k \<Rightarrow>
                    if vals ! jx < vals ! k then Returns (r mod num_items, rs)
                    else sample_negative_example num_items vals indices begin end ix rs)))"

subsection \<open>sample\_violating\_negative\_example\<close>

text \<open>
  The loop \<open>for N in xrange(1,max_trials)\<close> over the trial numbers \<open>[1..<max_trials]\<close>, with
  the margin reference \<open>r\<close> computed before it. \<open>r\<close> is a \<open>cdef float\<close>: the assignment
  \<open>r = U[u].dot(V[i])\<close> rounds the product to single precision, and the test
  \<open>r - U[u].dot(V[j]) < 1\<close> subtracts a double from that rounded value. The sentinel for
  "no violating item" is \<open>j = -1\<close>.
\<close>

fun trial_loop ::
  "matrix \<Rightarrow> matrix \<Rightarrow> real list \<Rightarrow> nat list \<Rightarrow> nat \<Rightarrow> nat \<Rightarrow> int \<Rightarrow> int \<Rightarrow> real \<Rightarrow> nat \<Rightarrow>
   nat list \<Rightarrow> tape \<Rightarrow> ((int \<times> nat) \<times> tape) result" where
  "trial_loop U V vals indices begin end u ix r max_trials [] rs =
     Returns ((- 1, max_trials), rs)"
| "trial_loop U V vals indices begin end u ix r max_trials (N # Ns) rs =
     (case sample_negative_example (length V) vals indices begin end ix rs of
        Starved \<Rightarrow> Starved
      | Raises e \<Rightarrow> Raises e
      | Returns (j, rs') \<Rightarrow>
          (case row_dot U u V (int j) of
             Inl e \<Rightarrow> Raises e
           | Inr s \<Rightarrow>
               if r - s < 1 then Returns ((int j, N), rs')
               else trial_loop U V vals indices begin end u ix r max_trials Ns rs'))"

definition sample_violating_negative_example ::
  "matrix \<Rightarrow> matrix \<Rightarrow> real list \<Rightarrow> nat list \<Rightarrow> nat \<Rightarrow> nat \<Rightarrow> int \<Rightarrow> int \<Rightarrow> int \<Rightarrow> nat \<Rightarrow>
   tape \<Rightarrow> ((int \<times> nat) \<times> tape) result" where
  "sample_violating_negative_example U V vals indices begin end u ix i max_trials rs =
     (case row_dot U u V i of
        Inl e \<Rightarrow> Raises e
      | Inr d \<Rightarrow>
          trial_loop U V vals indices begin end u ix (c_float d) max_trials
            [1..<max_trials] rs)"

subsection \<open>sample\_positive\_example\<close>

text \<open>
  \<open>num_users\<close> is an untyped parameter as well, so \<open>rand() % num_users\<close> is Python's
  remainder; \<open>rand() % (end-begin)\<close> is C arithmetic on unsigned integers, with a divisor
  that the test \<open>end > begin\<close> has made positive. All four array reads are unchecked
  buffer reads. The function returns \<open>(u, ix, i)\<close>; \<open>draw_position\<close> is the expression
  \<open>begin + (rand() % (end-begin))\<close> with \<open>begin = indptr[u]\<close> and \<open>end = indptr[u+1]\<close>.
\<close>

definition draw_position :: "nat list \<Rightarrow> nat \<Rightarrow> nat \<Rightarrow> nat" where
  "draw_position indptr u r = indptr ! u + r mod (indptr ! (u + 1) - indptr ! u)"

fun sample_positive_example ::
  "real \<Rightarrow> nat \<Rightarrow> real list \<Rightarrow> nat list \<Rightarrow> nat list \<Rightarrow> tape \<Rightarrow>
   ((nat \<times> nat \<times> nat) \<times> tape) result" where
  "sample_positive_example positive_thresh num_users vals indices indptr [] = Starved"
| "sample_positive_example positive_thresh num_users vals indices indptr (r # rs) =
     (if num_users = 0 then Raises ZeroDivisionError
      else if length indptr \<le> r mod num_users + 1 then Raises BufferOverrun
      else if indptr ! (r mod num_users + 1) > indptr ! (r mod num_users) then
        (case rs of
           [] \<Rightarrow> Starved
         | r' # rs' \<Rightarrow>
             if length vals \<le> draw_position indptr (r mod num_users) r'
             then Raises BufferOverrun
             else if vals ! draw_position indptr (r mod num_users) r' \<ge> positive_thresh then
               (if length indices \<le> draw_position indptr (r mod num_users) r'
                then Raises BufferOverrun
                else Returns ((r mod num_users,
                               draw_position indptr (r mod num_users) r',
                               indices ! draw_position indptr (r mod num_users) r'), rs'))
             else sample_positive_example positive_thresh num_users vals indices indptr rs')
      else sample_positive_example positive_thresh num_users vals indices indptr rs)"

subsection \<open>warp\_sample\<close>

text \<open>
  Each round of the loop of \<open>warp_sample\<close> draws at least once, so the tape left over
  is shorter: the recursion below is well-founded.
\<close>

lemma sample_negative_example_shorter:
  "sample_negative_example n vals indices b e ix rs = Returns (j, rs') \<Longrightarrow>
   length rs' < length rs"
  by (induction rs) (auto split: if_splits sum.splits option.splits)

lemma trial_loop_shorter:
  "trial_loop U V vals indices b e u ix r mt Ns rs = Returns (x, rs') \<Longrightarrow>
   length rs' \<le> length rs"
proof (induction Ns arbitrary: rs)
  case Nil
  then show ?case by simp
next
  case (Cons N Ns)
  then show ?case
    by (fastforce split: result.splits sum.splits if_splits prod.splits
          dest: sample_negative_example_shorter)
qed

lemma sample_violating_negative_example_shorter:
  "sample_violating_negative_example U V vals indices b e u ix i mt rs = Returns (x, rs') \<Longrightarrow>
   length rs' \<le> length rs"
  by (auto simp: sample_violating_negative_example_def split: sum.splits
        dest: trial_loop_shorter)

lemma sample_positive_example_shorter:
  "sample_positive_example thr n vals indices indptr rs = Returns (x, rs') \<Longrightarrow>
   length rs' < length rs"
  by (induction thr n vals indices indptr rs rule: sample_positive_example.induct)
    (auto split: if_splits list.splits)

text \<open>
  The loop \<open>while True\<close> of \<open>warp_sample\<close>, with the value of \<open>tot_trials\<close> on entry.
  \<open>indptr[u]\<close> and \<open>indptr[u+1]\<close> are unchecked buffer reads; \<open>u\<close>, \<open>ix\<close> and \<open>i\<close> reach
  \<open>sample_violating_negative_example\<close> as Python integers. \<open>tot_trials\<close> is an
  \<open>unsigned int\<close>: \<open>tot_trials += N\<close> is addition modulo \<open>2 ^ 32\<close>. The function returns
  \<open>(u, i, j, N, tot_trials)\<close>.
\<close>

function warp_loop ::
  "matrix \<Rightarrow> matrix \<Rightarrow> real list \<Rightarrow> nat list \<Rightarrow> nat list \<Rightarrow> real \<Rightarrow> nat \<Rightarrow> nat \<Rightarrow> tape \<Rightarrow>
   ((nat \<times> nat \<times> int \<times> nat \<times> nat) \<times> tape) result" where
  "warp_loop U V vals indices indptr positive_thresh max_trials tot_trials rs =
     (case sample_positive_example positive_thresh (length U) vals indices indptr rs of
        Starved \<Rightarrow> Starved
      | Raises e \<Rightarrow> Raises e
      | Returns ((u, ix, i), rs') \<Rightarrow>
          if length indptr \<le> u + 1 then Raises BufferOverrun
          else
            (case sample_violating_negative_example U V vals indices
                    (indptr ! u) (indptr ! (u + 1)) (int u) (int ix) (int i) max_trials rs' of
               Starved \<Rightarrow> Starved
             | Raises e \<Rightarrow> Raises e
             | Returns ((j, N), rs'') \<Rightarrow>
                 if j \<ge> 0 then Returns ((u, i, j, N, (tot_trials + N) mod 2 ^ 32), rs'')
                 else warp_loop U V vals indices indptr positive_thresh max_trials
                        ((tot_trials + N) mod 2 ^ 32) rs''))"
  by pat_completeness auto
termination
  by (relation "measure (\<lambda>(U, V, vals, indices, indptr, thr, mt, tot, rs). length rs)")
    (auto dest!: sample_positive_example_shorter sample_violating_negative_example_shorter)

declare warp_loop.simps [simp del]

definition warp_sample ::
  "matrix \<Rightarrow> matrix \<Rightarrow> real list \<Rightarrow> nat list \<Rightarrow> nat list \<Rightarrow> real \<Rightarrow> nat \<Rightarrow> tape \<Rightarrow>
   ((nat \<times> nat \<times> int \<times> nat \<times> nat) \<times> tape) result" where
  "warp_sample U V vals indices indptr positive_thresh max_trials rs =
     warp_loop U V vals indices indptr positive_thresh max_trials 0 rs"

text \<open>
  The number of rounds of that loop in which \<open>sample_violating_negative_example\<close> gave up,
  before the round that leaves the loop (by a return or an exception) or the end of the
  tape: the same recursion, counting.
\<close>

function discarded_rounds ::
  "matrix \<Rightarrow> matrix \<Rightarrow> real list \<Rightarrow> nat list \<Rightarrow> nat list \<Rightarrow> real \<Rightarrow> nat \<Rightarrow> tape \<Rightarrow> nat" where
  "discarded_rounds U V vals indices indptr positive_thresh max_trials rs =
     (case sample_positive_example positive_thresh (length U) vals indices indptr rs of
        Starved \<Rightarrow> 0
      | Raises e \<Rightarrow> 0
      | Returns ((u, ix, i), rs') \<Rightarrow>
          if length indptr \<le> u + 1 then 0
          else
            (case sample_violating_negative_example U V vals indices
                    (indptr ! u) (indptr ! (u + 1)) (int u) (int ix) (int i) max_trials rs' of
               Starved \<Rightarrow> 0
             | Raises e \<Rightarrow> 0
             | Returns ((j, N), rs'') \<Rightarrow>
                 if j \<ge> 0 then 0
                 else Suc (discarded_rounds U V vals indices indptr positive_thresh
                        max_trials rs'')))"
  by pat_completeness auto
termination
  by (relation "measure (\<lambda>(U, V, vals, indices, indptr, thr, mt, rs). length rs)")
    (auto dest!: sample_positive_example_shorter sample_violating_negative_example_shorter)

declare discarded_rounds.simps [simp del]

subsection \<open>apply\_updates\<close>

text \<open>
  \<open>apply_updates\<close> mutates the array \<open>F\<close> in place. Arrays of floats live in a store, a
  map from addresses to their contents; \<open>F\<close> and \<open>deltas\<close> are addresses, so that a call
  which passes the same array twice is a call with equal addresses. \<open>rows\<close> is an array
  of 32-bit integers, which the typed signature keeps apart from the arrays of floats;
  \<open>gamma\<close> and \<open>C\<close> are Python floats. None of the three is assigned to anywhere in the
  source, and they are passed by value.

  The outcome of a call is the exception it raised, if any, and the store it leaves.
\<close>

type_synonym store = "nat \<Rightarrow> matrix"

text \<open>\<open>sqrt(w.T.dot(w))\<close>\<close>

definition l2norm :: "real list \<Rightarrow> real" where
  "l2norm w = sqrt (sum_list (map (\<lambda>x. x * x) w))"

text \<open>
  \<open>a += b\<close> on vectors: \<open>b\<close> must have the shape of \<open>a\<close>, or one entry, which numpy
  broadcasts; any other shape raises \<open>ValueError\<close>.
\<close>

definition iadd :: "real list \<Rightarrow> real list \<Rightarrow> real list option" where
  "iadd a b =
     (if length b = length a then Some (map2 (+) a b)
      else if length b = 1 then Some (map (\<lambda>x. x + hd b) a)
      else None)"

text \<open>
  The body of the loop, lines 243 to 248, for the row index \<open>row = rows[i]\<close> and the
  position \<open>i\<close>: \<open>deltas[i]\<close> and \<open>F[row]\<close> are numpy indexings; \<open>sqrt(...)/C\<close> divides
  by a Python float, which raises \<open>ZeroDivisionError\<close> for \<open>C = 0\<close>, after the row has
  been incremented. \<open>p\<close> is a \<open>cdef float\<close>: the quotient is rounded to single precision
  on assignment, and both the test \<open>p > 1\<close> and the division \<open>F[row] /= p\<close> use the
  rounded value.
\<close>

definition update_row ::
  "store \<Rightarrow> nat \<Rightarrow> nat \<Rightarrow> real \<Rightarrow> real \<Rightarrow> nat \<Rightarrow> int \<Rightarrow> error option \<times> store" where
  "update_row h F D gamma C i row =
     (if length (h D) \<le> i then (Some IndexError, h)
      else
        (case py_index (length (h F)) row of
           None \<Rightarrow> (Some IndexError, h)
         | Some k \<Rightarrow>
             (case iadd (h F ! k) (map ((*) gamma) (h D ! i)) of
                None \<Rightarrow> (Some ValueError, h)
              | Some w \<Rightarrow>
                  if C = 0 then (Some ZeroDivisionError, h(F := (h F)[k := w]))
                  else if c_float (l2norm w / C) > 1
                  then (None, h(F := (h F)[k := map (\<lambda>x. x / c_float (l2norm w / C)) w]))
                  else (None, h(F := (h F)[k := w])))))"

text \<open>The loop \<open>for i in xrange(num)\<close>, over the positions \<open>[0..<num]\<close>.\<close>

fun update_loop ::
  "store \<Rightarrow> nat \<Rightarrow> int list \<Rightarrow> nat \<Rightarrow> real \<Rightarrow> real \<Rightarrow> nat list \<Rightarrow> error option \<times> store" where
  "update_loop h F rows D gamma C [] = (None, h)"
| "update_loop h F rows D gamma C (i # is) =
     (case update_row h F D gamma C i (rows ! i) of
        (Some e, h') \<Rightarrow> (Some e, h')
      | (None, h') \<Rightarrow> update_loop h' F rows D gamma C is)"

definition apply_updates ::
  "store \<Rightarrow> nat \<Rightarrow> int list \<Rightarrow> nat \<Rightarrow> real \<Rightarrow> real \<Rightarrow> error option \<times> store" where
  "apply_updates h F rows D gamma C =
     (if length rows \<noteq> length (h D) then (Some AssertionError, h)
      else update_loop h F rows D gamma C [0..<length rows])"

subsection \<open>Notions used to state the properties\<close>


text \<open>
  The test that lets \<open>sample_negative_example\<close> return a candidate \<open>j\<close>:
  \<open>not found or vals[jx] < vals[ix]\<close>, both reads within bounds.
\<close>

definition accepted :: "real list \<Rightarrow> nat list \<Rightarrow> nat \<Rightarrow> nat \<Rightarrow> int \<Rightarrow> nat \<Rightarrow> bool" where
  "accepted vals indices b e ix j =
     (case scan indices j [b..<e] of
        Inl err \<Rightarrow> False
      | Inr None \<Rightarrow> True
      | Inr (Some jx) \<Rightarrow>
          (case py_index (length vals) ix of
             None \<Rightarrow> False
           | Some k \<Rightarrow> jx < length vals \<and> vals ! jx < vals ! k))"

text \<open>
  The first \<open>t\<close> candidates that successive calls of \<open>sample_negative_example\<close> draw from
  a tape, and the margin test \<open>r - U[u].dot(V[j]) < 1\<close> on a candidate (\<open>violating\<close>) with
  its negation (\<open>keeps_margin\<close>); both tests require the product to evaluate.
\<close>

fun candidates ::
  "nat \<Rightarrow> real list \<Rightarrow> nat list \<Rightarrow> nat \<Rightarrow> nat \<Rightarrow> int \<Rightarrow> nat \<Rightarrow> tape \<Rightarrow> (nat list \<times> tape) result" where
  "candidates num_items vals indices b e ix 0 rs = Returns ([], rs)"
| "candidates num_items vals indices b e ix (Suc t) rs =
     (case sample_negative_example num_items vals indices b e ix rs of
        Starved \<Rightarrow> Starved
      | Raises err \<Rightarrow> Raises err
      | Returns (j, rs') \<Rightarrow>
          (case candidates num_items vals indices b e ix t rs' of
             Starved \<Rightarrow> Starved
           | Raises err \<Rightarrow> Raises err
           | Returns (js, rs'') \<Rightarrow> Returns (j # js, rs'')))"

definition violating :: "matrix \<Rightarrow> matrix \<Rightarrow> int \<Rightarrow> real \<Rightarrow> nat \<Rightarrow> bool" where
  "violating U V u r j =
     (case row_dot U u V (int j) of Inl err \<Rightarrow> False | Inr s \<Rightarrow> r - s < 1)"

definition keeps_margin :: "matrix \<Rightarrow> matrix \<Rightarrow> int \<Rightarrow> real \<Rightarrow> nat \<Rightarrow> bool" where
  "keeps_margin U V u r j =
     (case row_dot U u V (int j) of Inl err \<Rightarrow> False | Inr s \<Rightarrow> \<not> r - s < 1)"

section \<open>Values of the single precision conversion\<close>

lemmas c_float_eval =
  c_float_def float_exponent_def round_half_even_def pow2_def binade_up.simps
  binade_down.simps

lemma c_float_0: "c_float 0 = 0"
  by (simp add: c_float_def round_half_even_def)


lemma c_float_2: "c_float 2 = 2"
  by (simp add: c_float_eval)

lemma c_float_5: "c_float 5 = 5"
  by (simp add: c_float_eval)



text \<open>Three doubles that are not floats: each is rounded to the float next to it.\<close>

lemma c_float_below_two: "c_float (2 - 1 / 2 ^ 30) = 2"
  by (simp add: c_float_eval)

lemma c_float_above_two: "c_float (2 + 1 / 2 ^ 30) = 2"
  by (simp add: c_float_eval)

lemma c_float_above_one: "c_float (1 + 1 / 2 ^ 30) = 1"
  by (simp add: c_float_eval)

text \<open>The square root of 2 lies between the floats \<open>11863283 / 2^23\<close> and the next one.\<close>

lemma sqrt2_lower: "11863283 / 2 ^ 23 \<le> sqrt 2"
  by (rule real_le_rsqrt) (simp add: power2_eq_square)

lemma sqrt2_upper: "sqrt 2 < 23726567 / 2 ^ 24"
  by (rule real_less_lsqrt) (simp_all add: power2_eq_square)

lemma c_float_sqrt2: "c_float (sqrt 2) = 11863283 / 2 ^ 23"
proof -
  have one: "1 \<le> sqrt 2" by simp
  have two: "\<not> 2 \<le> sqrt 2"
    using sqrt2_upper by simp
  have e: "float_exponent (sqrt 2) = 0"
    using one two by (simp add: float_exponent_def binade_up.simps)
  have fl: "\<lfloor>sqrt 2 * 2 ^ 23\<rfloor> = 11863283"
  proof (rule floor_unique)
    from sqrt2_lower show "of_int 11863283 \<le> sqrt 2 * 2 ^ 23" by simp
    from sqrt2_upper show "sqrt 2 * 2 ^ 23 < of_int 11863283 + 1" by simp
  qed
  have fl': "\<lfloor>sqrt 2 * 8388608\<rfloor> = 11863283"
    using fl by simp
  have "sqrt 2 * 8388608 < 11863283 + 1 / 2"
    using sqrt2_upper by simp
  then have fr: "sqrt 2 * 8388608 - of_int \<lfloor>sqrt 2 * 8388608\<rfloor> < 1 / 2"
    by (simp add: fl')
  have "round_half_even (sqrt 2 * 8388608) = 11863283"
    using fr fl' by (simp only: round_half_even_def if_True)
  then show ?thesis
    by (simp add: c_float_def e pow2_def)
qed

section \<open>Properties of the samplers\<close>

subsection \<open>What a returned sample satisfies\<close>

lemma py_index_less: "py_index n x = Some k \<Longrightarrow> k < n"
  by (auto simp: py_index_def split: if_splits)

lemma py_index_int [simp]: "py_index n (int k) = (if k < n then Some k else None)"
  by (simp add: py_index_def)

lemma scan_None:
  "scan indices j ps = Inr None \<Longrightarrow> find (\<lambda>k. indices ! k = j) ps = None"
  by (induction ps) (auto split: if_splits)

lemma scan_Some:
  "scan indices j ps = Inr (Some jx) \<Longrightarrow> find (\<lambda>k. indices ! k = j) ps = Some jx"
  by (induction ps) (auto split: if_splits)

lemma sample_positive_example_sound:
  "sample_positive_example thr n vals indices indptr rs = Returns ((u, ix, i), rs') \<Longrightarrow>
   0 < n \<and> u < n \<and> u + 1 < length indptr \<and> indptr ! u \<le> ix \<and> ix < indptr ! (u + 1) \<and>
   ix < length vals \<and> ix < length indices \<and> thr \<le> vals ! ix \<and> i = indices ! ix"
proof (induction thr n vals indices indptr rs rule: sample_positive_example.induct)
  case (1 thr n vals indices indptr)
  then show ?case by simp
next
  case (2 thr n vals indices indptr r rs)
  show ?case
  proof (cases "n = 0 \<or> length indptr \<le> r mod n + 1")
    case True
    with "2.prems" show ?thesis by (auto split: if_splits)
  next
    case ok: False
    show ?thesis
    proof (cases "indptr ! (r mod n) < indptr ! (r mod n + 1)")
      case False
      with ok "2.prems" "2.IH"(2) show ?thesis by simp
    next
      case True
      show ?thesis
      proof (cases rs)
        case Nil
        with ok True "2.prems" show ?thesis by simp
      next
        case (Cons r' rs1)
        let ?p = "draw_position indptr (r mod n) r'"
        have range: "indptr ! (r mod n) \<le> ?p \<and> ?p < indptr ! (r mod n + 1)"
          using True by (simp add: draw_position_def) (metis add.commute less_diff_conv mod_less_divisor zero_less_diff)
        show ?thesis
        proof (cases "length vals \<le> ?p")
          case True
          with ok \<open>indptr ! (r mod n) < indptr ! (r mod n + 1)\<close> Cons "2.prems"
          show ?thesis by simp
        next
          case inb: False
          show ?thesis
          proof (cases "thr \<le> vals ! ?p")
            case False
            with ok \<open>indptr ! (r mod n) < indptr ! (r mod n + 1)\<close> Cons inb "2.prems" "2.IH"(1)
            show ?thesis by simp
          next
            case True
            with ok \<open>indptr ! (r mod n) < indptr ! (r mod n + 1)\<close> Cons inb "2.prems" range
            show ?thesis by (auto split: if_splits)
          qed
        qed
      qed
    qed
  qed
qed

lemma sample_negative_example_sound:
  "sample_negative_example n vals indices b e ix rs = Returns (j, rs') \<Longrightarrow>
   0 < n \<and> j < n \<and>
   (scan indices j [b..<e] = Inr None \<or>
    (\<exists>jx k. scan indices j [b..<e] = Inr (Some jx) \<and> py_index (length vals) ix = Some k \<and>
       jx < length vals \<and> vals ! jx < vals ! k))"
proof (induction rs)
  case Nil
  then show ?case by simp
next
  case (Cons r rs)
  then show ?case
    by (auto split: if_splits sum.splits option.splits)
qed

lemma sample_negative_example_accepted:
  "sample_negative_example n vals indices b e ix rs = Returns (j, rs') \<Longrightarrow>
   0 < n \<and> j < n \<and> accepted vals indices b e ix j"
  by (drule sample_negative_example_sound) (auto simp: accepted_def)

lemma trial_loop_sound:
  "trial_loop U V vals indices b e u ix r mt Ns rs = Returns ((j, N), rs') \<Longrightarrow>
   (j = - 1 \<and> N = mt) \<or>
   (N \<in> set Ns \<and> (\<exists>jn. j = int jn \<and> jn < length V \<and> accepted vals indices b e ix jn))"
proof (induction Ns arbitrary: rs)
  case Nil
  then show ?case by simp
next
  case (Cons N0 Ns)
  from Cons.prems obtain j0 rs1 where
    neg: "sample_negative_example (length V) vals indices b e ix rs = Returns (j0, rs1)"
    by (auto split: result.splits)
  note acc = sample_negative_example_accepted [OF neg]
  from Cons.prems neg obtain s where s: "row_dot U u V (int j0) = Inr s"
    by (auto split: sum.splits)
  show ?case
  proof (cases "r - s < 1")
    case True
    with Cons.prems neg s acc show ?thesis by auto
  next
    case False
    with Cons.prems neg s
    have "trial_loop U V vals indices b e u ix r mt Ns rs1 = Returns ((j, N), rs')"
      by simp
    from Cons.IH [OF this] show ?thesis by auto
  qed
qed

lemma sample_violating_negative_example_sound:
  assumes "sample_violating_negative_example U V vals indices b e u ix i mt rs =
    Returns ((j, N), rs')"
  shows "(j = - 1 \<and> N = mt) \<or>
   (1 \<le> N \<and> N < mt \<and> (\<exists>jn. j = int jn \<and> jn < length V \<and> accepted vals indices b e ix jn))"
proof -
  from assms obtain r where
    "trial_loop U V vals indices b e u ix r mt [1..<mt] rs = Returns ((j, N), rs')"
    by (auto simp: sample_violating_negative_example_def split: sum.splits)
  from trial_loop_sound [OF this] show ?thesis by auto
qed

lemma warp_loop_sound:
  "warp_loop U V vals indices indptr thr mt tot rs = Returns ((u, i, j, N, tot'), rs') \<Longrightarrow>
   u < length U \<and> u + 1 < length indptr \<and> 1 \<le> N \<and> N < mt \<and>
   tot' = (tot + discarded_rounds U V vals indices indptr thr mt rs * mt + N) mod 2 ^ 32 \<and>
   (\<exists>ix jn. indptr ! u \<le> ix \<and> ix < indptr ! (u + 1) \<and> ix < length vals \<and>
      indices ! ix = i \<and> thr \<le> vals ! ix \<and> j = int jn \<and> jn < length V \<and>
      accepted vals indices (indptr ! u) (indptr ! (u + 1)) (int ix) jn)"
proof (induction U V vals indices indptr thr mt tot rs rule: warp_loop.induct)
  case (1 U V vals indices indptr thr mt tot rs)
  from "1.prems" obtain u0 ix0 i0 rs1 where
    pos: "sample_positive_example thr (length U) vals indices indptr rs =
      Returns ((u0, ix0, i0), rs1)"
    by (subst (asm) warp_loop.simps) (auto split: result.splits)
  note ps = sample_positive_example_sound [OF pos]
  then have inb: "\<not> length indptr \<le> u0 + 1" by simp
  let ?b = "indptr ! u0" and ?e = "indptr ! (u0 + 1)"
  from "1.prems" pos inb obtain j0 N0 rs2 where
    neg: "sample_violating_negative_example U V vals indices ?b ?e (int u0) (int ix0) (int i0)
      mt rs1 = Returns ((j0, N0), rs2)"
    by (subst (asm) warp_loop.simps) (auto split: result.splits)
  note ns = sample_violating_negative_example_sound [OF neg]
  show ?case
  proof (cases "0 \<le> j0")
    case True
    with "1.prems" pos inb neg
    have eq: "u = u0" "i = i0" "j = j0" "N = N0" "tot' = (tot + N0) mod 2 ^ 32" "rs' = rs2"
      by (subst (asm) warp_loop.simps, simp)+
    from True ns obtain jn where
      "1 \<le> N0" "N0 < mt" "j0 = int jn" "jn < length V"
      "accepted vals indices ?b ?e (int ix0) jn"
      by auto
    moreover from pos inb neg True
    have "discarded_rounds U V vals indices indptr thr mt rs = 0"
      by (subst discarded_rounds.simps) simp
    ultimately show ?thesis
      using ps eq by auto
  next
    case False
    with ns have N0: "N0 = mt" by auto
    from False "1.prems" pos inb neg
    have rec: "warp_loop U V vals indices indptr thr mt ((tot + N0) mod 2 ^ 32) rs2 =
      Returns ((u, i, j, N, tot'), rs')"
      by (subst (asm) warp_loop.simps) simp
    let ?d = "discarded_rounds U V vals indices indptr thr mt rs2"
    from "1.IH" [OF pos refl refl refl inb neg refl refl False rec]
    have k: "tot' = ((tot + N0) mod 2 ^ 32 + ?d * mt + N) mod 2 ^ 32"
      and rest: "u < length U \<and> u + 1 < length indptr \<and> 1 \<le> N \<and> N < mt"
        "\<exists>ix jn. indptr ! u \<le> ix \<and> ix < indptr ! (u + 1) \<and> ix < length vals \<and>
          indices ! ix = i \<and> thr \<le> vals ! ix \<and> j = int jn \<and> jn < length V \<and>
          accepted vals indices (indptr ! u) (indptr ! (u + 1)) (int ix) jn"
      by blast+
    from pos inb neg False
    have d: "discarded_rounds U V vals indices indptr thr mt rs = Suc ?d"
      by (subst discarded_rounds.simps) simp
    have "((tot + mt) mod 2 ^ 32 + (?d * mt + N)) mod 2 ^ 32 =
        ((tot + mt) + (?d * mt + N)) mod (2 ^ 32 :: nat)"
      by (rule mod_add_left_eq)
    then have "tot' = (tot + Suc ?d * mt + N) mod 2 ^ 32"
      unfolding k N0 by (simp add: algebra_simps)
    with d have "tot' =
        (tot + discarded_rounds U V vals indices indptr thr mt rs * mt + N) mod 2 ^ 32"
      by simp
    with rest show ?thesis by blast
  qed
qed

lemma warp_sample_sound:
  assumes "warp_sample U V vals indices indptr thr mt rs = Returns ((u, i, j, N, tot), rs')"
  shows "u < length U \<and> u + 1 < length indptr \<and> 1 \<le> N \<and> N < mt \<and>
   tot = (discarded_rounds U V vals indices indptr thr mt rs * mt + N) mod 2 ^ 32 \<and>
   (\<exists>ix jn. indptr ! u \<le> ix \<and> ix < indptr ! (u + 1) \<and> ix < length vals \<and>
      indices ! ix = i \<and> thr \<le> vals ! ix \<and> j = int jn \<and> jn < length V \<and>
      accepted vals indices (indptr ! u) (indptr ! (u + 1)) (int ix) jn)"
  using warp_loop_sound [of U V vals indices indptr thr mt 0 rs u i j N tot rs'] assms
  by (simp add: warp_sample_def)

lemma find_distinct_map:
  "distinct (map f xs) \<Longrightarrow> x \<in> set xs \<Longrightarrow> find (\<lambda>k. f k = f x) xs = Some x"
  by (induction xs) (auto simp: image_iff)



subsection \<open>The trials of sample\_violating\_negative\_example\<close>

lemma candidates_length:
  "candidates n vals indices b e ix t rs = Returns (js, rs') \<Longrightarrow> length js = t"
  by (induction t arbitrary: rs js) (auto split: result.splits)

lemma trial_loop_finds:
  "candidates (length V) vals indices b e ix (Suc t) rs = Returns (js, rs') \<Longrightarrow>
   violating U V u r (last js) \<Longrightarrow> \<forall>j\<in>set (butlast js). keeps_margin U V u r j \<Longrightarrow>
   t < length Ns \<Longrightarrow>
   trial_loop U V vals indices b e u ix r mt Ns rs = Returns ((int (last js), Ns ! t), rs')"
proof (induction t arbitrary: Ns rs js)
  case 0
  then obtain N Ns' where Ns: "Ns = N # Ns'" by (cases Ns) auto
  from "0.prems"(1) obtain j where
    "sample_negative_example (length V) vals indices b e ix rs = Returns (j, rs')" "js = [j]"
    by (auto split: result.splits)
  with "0.prems"(2) Ns show ?case
    by (auto simp: violating_def split: sum.splits)
next
  case (Suc t)
  then obtain N Ns' where Ns: "Ns = N # Ns'" by (cases Ns) auto
  from Suc.prems(1) obtain j rs1 js1 where
    first: "sample_negative_example (length V) vals indices b e ix rs = Returns (j, rs1)"
    and rest: "candidates (length V) vals indices b e ix (Suc t) rs1 = Returns (js1, rs')"
    and js: "js = j # js1"
    by (auto split: result.splits)
  from candidates_length [OF rest] have ne: "js1 \<noteq> []" by auto
  with Suc.prems(2,3) js have v: "violating U V u r (last js1)"
    and k: "keeps_margin U V u r j" "\<forall>x\<in>set (butlast js1). keeps_margin U V u r x"
    by auto
  from Suc.prems(4) Ns have "t < length Ns'" by simp
  from Suc.IH [OF rest v k(2) this]
  have "trial_loop U V vals indices b e u ix r mt Ns' rs1 =
      Returns ((int (last js1), Ns' ! t), rs')" .
  with first k(1) Ns js ne show ?case
    by (auto simp: keeps_margin_def split: sum.splits)
qed

lemma trial_loop_gives_up:
  "candidates (length V) vals indices b e ix (length Ns) rs = Returns (js, rs') \<Longrightarrow>
   \<forall>j\<in>set js. keeps_margin U V u r j \<Longrightarrow>
   trial_loop U V vals indices b e u ix r mt Ns rs = Returns ((- 1, mt), rs')"
proof (induction Ns arbitrary: rs js)
  case Nil
  then show ?case by simp
next
  case (Cons N Ns)
  from Cons.prems(1) obtain j rs1 js1 where
    first: "sample_negative_example (length V) vals indices b e ix rs = Returns (j, rs1)"
    and rest: "candidates (length V) vals indices b e ix (length Ns) rs1 = Returns (js1, rs')"
    and js: "js = j # js1"
    by (auto split: result.splits)
  from Cons.prems(2) js have k: "keeps_margin U V u r j" "\<forall>x\<in>set js1. keeps_margin U V u r x"
    by auto
  from Cons.IH [OF rest k(2)] first k(1) show ?case
    by (auto simp: keeps_margin_def split: sum.splits)
qed

lemma trial_loop_draws:
  "trial_loop U V vals indices b e u ix r mt Ns rs = Returns ((j, N), rs') \<Longrightarrow>
   \<exists>t js. t \<le> length Ns \<and> candidates (length V) vals indices b e ix t rs = Returns (js, rs') \<and>
     (j = - 1 \<and> N = mt \<and> t = length Ns \<and> (\<forall>x\<in>set js. keeps_margin U V u r x) \<or>
      0 < t \<and> j = int (last js) \<and> N = Ns ! (t - 1) \<and> violating U V u r (last js) \<and>
        (\<forall>x\<in>set (butlast js). keeps_margin U V u r x))"
proof (induction Ns arbitrary: rs)
  case Nil
  then show ?case by (intro exI [of _ 0] exI [of _ "[]"]) simp
next
  case (Cons N0 Ns)
  from Cons.prems obtain j0 rs1 where
    first: "sample_negative_example (length V) vals indices b e ix rs = Returns (j0, rs1)"
    by (auto split: result.splits)
  from Cons.prems first obtain s where s: "row_dot U u V (int j0) = Inr s"
    by (auto split: sum.splits)
  show ?case
  proof (cases "r - s < 1")
    case True
    with Cons.prems first s have "j = int j0" "N = N0" "rs' = rs1" by auto
    with first s True show ?thesis
      by (intro exI [of _ 1] exI [of _ "[j0]"]) (simp add: violating_def)
  next
    case False
    with Cons.prems first s
    have "trial_loop U V vals indices b e u ix r mt Ns rs1 = Returns ((j, N), rs')"
      by simp
    from Cons.IH [OF this] obtain t js where t: "t \<le> length Ns"
      and c: "candidates (length V) vals indices b e ix t rs1 = Returns (js, rs')"
      and d: "j = - 1 \<and> N = mt \<and> t = length Ns \<and> (\<forall>x\<in>set js. keeps_margin U V u r x) \<or>
        0 < t \<and> j = int (last js) \<and> N = Ns ! (t - 1) \<and> violating U V u r (last js) \<and>
          (\<forall>x\<in>set (butlast js). keeps_margin U V u r x)"
      by blast
    from s False have k0: "keeps_margin U V u r j0" by (simp add: keeps_margin_def)
    from candidates_length [OF c] have len: "length js = t" .
    have c': "candidates (length V) vals indices b e ix (Suc t) rs = Returns (j0 # js, rs')"
      using first c by simp
    from d show ?thesis
    proof
      assume "j = - 1 \<and> N = mt \<and> t = length Ns \<and> (\<forall>x\<in>set js. keeps_margin U V u r x)"
      with k0 c' show ?thesis
        by (intro exI [of _ "Suc t"] exI [of _ "j0 # js"]) simp
    next
      assume a: "0 < t \<and> j = int (last js) \<and> N = Ns ! (t - 1) \<and> violating U V u r (last js) \<and>
          (\<forall>x\<in>set (butlast js). keeps_margin U V u r x)"
      with len have "js \<noteq> []" by auto
      with a k0 c' t show ?thesis
        by (intro exI [of _ "Suc t"] exI [of _ "j0 # js"]) (auto simp: nth_Cons')
    qed
  qed
qed

subsection \<open>Zero counts\<close>

lemma sample_violating_negative_example_no_items:
  "sample_violating_negative_example U [] vals indices b e u ix i mt rs = Raises IndexError"
  by (auto simp: sample_violating_negative_example_def row_dot_def py_index_def
        split: option.splits)

lemma warp_sample_no_users:
  "warp_sample [] V vals indices indptr thr mt (r # rs) = Raises ZeroDivisionError"
  by (simp add: warp_sample_def warp_loop.simps)

subsection \<open>Concrete runs\<close>

lemmas eval_defs =
  sample_violating_negative_example_def row_dot_def py_index_def dot_def
  draw_position_def upt_conv_Cons c_float_0 c_float_2


lemma run_item_nine:
  "warp_sample [[1]] [[0], [0], [2], [0], [0], [2], [0], [0], [0], [0]]
     [5, 3, 5] [2, 5, 9] [0, 3] 5 2 [0, 2, 9, 2, 7] =
   Returns ((0, 9, 7, 1, 1), [])"
  apply (simp only: warp_sample_def)
  apply (subst warp_loop.simps)
  apply (simp add: eval_defs)
  done

text \<open>
  One user who rated item 0, three items of which item 1 keeps the margin and item 2
  violates it, \<open>max_trials = 3\<close>: a round that draws item 1 twice gives up and adds 3 to
  \<open>tot_trials\<close>; a round that draws item 1, then item 2, returns with \<open>N = 2\<close>.
\<close>

lemma failed_round:
  "warp_loop [[1]] [[2], [0], [2]] [1] [0] [0, 1] 1 3 tot (0 # 0 # 1 # 1 # rs) =
   warp_loop [[1]] [[2], [0], [2]] [1] [0] [0, 1] 1 3 ((tot + 3) mod 2 ^ 32) rs"
  by (subst warp_loop.simps) (simp add: eval_defs)

lemma failed_rounds:
  "tot < 2 ^ 32 \<Longrightarrow>
   warp_loop [[1]] [[2], [0], [2]] [1] [0] [0, 1] 1 3 tot
     (concat (replicate k [0, 0, 1, 1]) @ rs) =
   warp_loop [[1]] [[2], [0], [2]] [1] [0] [0, 1] 1 3 ((tot + 3 * k) mod 2 ^ 32) rs"
proof (induction k arbitrary: tot)
  case 0
  then show ?case by simp
next
  case (Suc k)
  have lt: "(tot + 3) mod 2 ^ 32 < (2 ^ 32 :: nat)" by simp
  have "warp_loop [[1]] [[2], [0], [2]] [1] [0] [0, 1] 1 3 tot
      (concat (replicate (Suc k) [0, 0, 1, 1]) @ rs) =
    warp_loop [[1]] [[2], [0], [2]] [1] [0] [0, 1] 1 3 tot
      (0 # 0 # 1 # 1 # concat (replicate k [0, 0, 1, 1]) @ rs)"
    by simp
  also have "\<dots> = warp_loop [[1]] [[2], [0], [2]] [1] [0] [0, 1] 1 3 ((tot + 3) mod 2 ^ 32)
      (concat (replicate k [0, 0, 1, 1]) @ rs)"
    by (rule failed_round)
  also have "\<dots> = warp_loop [[1]] [[2], [0], [2]] [1] [0] [0, 1] 1 3
      (((tot + 3) mod 2 ^ 32 + 3 * k) mod 2 ^ 32) rs"
    by (rule Suc.IH [OF lt])
  also have "((tot + 3) mod 2 ^ 32 + 3 * k) mod 2 ^ 32 = (tot + 3 * Suc k) mod (2 ^ 32 :: nat)"
  proof -
    have "((tot + 3) mod 2 ^ 32 + 3 * k) mod 2 ^ 32 = (tot + 3 + 3 * k) mod (2 ^ 32 :: nat)"
      by (rule mod_add_left_eq)
    also have "tot + 3 + 3 * k = tot + 3 * Suc k" by simp
    finally show ?thesis .
  qed
  finally show ?case .
qed

lemma last_round:
  "warp_loop [[1]] [[2], [0], [2]] [1] [0] [0, 1] 1 3 tot [0, 0, 1, 2] =
   Returns ((0, 0, 2, 2, (tot + 2) mod 2 ^ 32), [])"
  by (subst warp_loop.simps) (simp add: eval_defs)

lemma discarded_failed_round:
  "discarded_rounds [[1]] [[2], [0], [2]] [1] [0] [0, 1] 1 3 (0 # 0 # 1 # 1 # rs) =
   Suc (discarded_rounds [[1]] [[2], [0], [2]] [1] [0] [0, 1] 1 3 rs)"
  by (subst discarded_rounds.simps) (simp add: eval_defs)

lemma discarded_last_round:
  "discarded_rounds [[1]] [[2], [0], [2]] [1] [0] [0, 1] 1 3 [0, 0, 1, 2] = 0"
  by (subst discarded_rounds.simps) (simp add: eval_defs)

lemma discarded_failed_rounds:
  "discarded_rounds [[1]] [[2], [0], [2]] [1] [0] [0, 1] 1 3
     (concat (replicate k [0, 0, 1, 1]) @ [0, 0, 1, 2]) = k"
proof (induction k)
  case 0
  show ?case by (simp only: replicate_0 concat.simps append_Nil discarded_last_round)
next
  case (Suc k)
  have "discarded_rounds [[1]] [[2], [0], [2]] [1] [0] [0, 1] 1 3
      (concat (replicate (Suc k) [0, 0, 1, 1]) @ [0, 0, 1, 2]) =
    discarded_rounds [[1]] [[2], [0], [2]] [1] [0] [0, 1] 1 3
      (0 # 0 # 1 # 1 # concat (replicate k [0, 0, 1, 1]) @ [0, 0, 1, 2])"
    by simp
  also have "\<dots> = Suc (discarded_rounds [[1]] [[2], [0], [2]] [1] [0] [0, 1] 1 3
      (concat (replicate k [0, 0, 1, 1]) @ [0, 0, 1, 2]))"
    by (rule discarded_failed_round)
  finally show ?case by (simp only: Suc.IH)
qed

lemma run_one_failure:
  "warp_sample [[1]] [[2], [0], [2]] [1] [0] [0, 1] 1 3 [0, 0, 1, 1, 0, 0, 1, 2] =
   Returns ((0, 0, 2, 2, 5), [])"
proof -
  have "warp_loop [[1]] [[2], [0], [2]] [1] [0] [0, 1] 1 3 0 (0 # 0 # 1 # 1 # [0, 0, 1, 2]) =
      warp_loop [[1]] [[2], [0], [2]] [1] [0] [0, 1] 1 3 ((0 + 3) mod 2 ^ 32) [0, 0, 1, 2]"
    by (rule failed_round)
  also have "\<dots> = Returns ((0, 0, 2, 2, ((0 + 3) mod 2 ^ 32 + 2) mod 2 ^ 32), [])"
    by (rule last_round)
  finally show ?thesis
    by (simp only: warp_sample_def) simp
qed

text \<open>
  The same user with the item rated twice, \<open>{item 2: 1.0, item 2: 5.0}\<close>: the second
  entry is drawn as the positive one, the candidate 2 is found at the first entry, whose
  rating is lower, and the sample returned has \<open>j = i = 2\<close>. Nothing in the code compares
  \<open>j\<close> with \<open>i\<close>.
\<close>

lemma run_duplicate_index:
  "warp_sample [[1]] [[0], [0], [2]] [1, 5] [2, 2] [0, 2] 5 2 [0, 1, 2] =
   Returns ((0, 2, 2, 1, 1), [])"
  apply (simp only: warp_sample_def)
  apply (subst warp_loop.simps)
  apply (simp add: eval_defs)
  done

subsection \<open>The claims\<close>



text \<open>
  C2. For every sample that \<open>warp_sample\<close> returns, \<open>j \<noteq> i\<close>, provided the column indices
  in the row of user \<open>u\<close> are distinct. The proof uses the comparison of ratings only: the
  scan for the candidate \<open>i\<close> breaks at the position of the positive entry, whose rating
  is not below itself. (\<open>run_duplicate_index\<close> shows a sample with \<open>j = i\<close> when the
  indices are not distinct.)
\<close>

theorem warp_sample_negative_differs:
  assumes "warp_sample U V vals indices indptr thr mt rs = Returns ((u, i, j, N, tot), rs')"
    and "distinct (map ((!) indices) [indptr ! u..<indptr ! (u + 1)])"
  shows "j \<noteq> int i"
proof
  assume eq: "j = int i"
  from warp_sample_sound [OF assms(1)] obtain ix jn where
    ix: "indptr ! u \<le> ix" "ix < indptr ! (u + 1)" "ix < length vals" "indices ! ix = i"
    and jn: "j = int jn" "accepted vals indices (indptr ! u) (indptr ! (u + 1)) (int ix) jn"
    by blast
  from eq jn(1) have "jn = i" by simp
  from ix have mem: "ix \<in> set [indptr ! u..<indptr ! (u + 1)]" by simp
  from find_distinct_map [OF assms(2) mem] ix(4)
  have found: "find (\<lambda>k. indices ! k = i) [indptr ! u..<indptr ! (u + 1)] = Some ix"
    by simp
  show False
  proof (cases "scan indices i [indptr ! u..<indptr ! (u + 1)]")
    case (Inl err)
    with jn(2) \<open>jn = i\<close> show False by (simp add: accepted_def)
  next
    case (Inr r)
    show False
    proof (cases r)
      case None
      with Inr found show False by (simp add: scan_None)
    next
      case (Some jx)
      with Inr found have "jx = ix" using scan_Some by fastforce
      with jn(2) \<open>jn = i\<close> Inr Some ix(3) show False by (simp add: accepted_def)
    qed
  qed
qed

theorem warp_sample_negative_differs_witness:
  "warp_sample [[1]] [[0], [0], [2], [0], [0], [2], [0], [0], [0], [0]]
     [5, 3, 5] [2, 5, 9] [0, 3] 5 2 [0, 2, 9, 2, 7] =
     Returns ((0, 9, 7, 1, 1), []) \<and>
   distinct (map ((!) [2, 5, 9 :: nat]) [[0, 3] ! 0..<[0, 3] ! (0 + 1)]) \<and>
   (7 :: int) \<noteq> int 9"
proof -
  have d: "distinct (map ((!) [2, 5, 9 :: nat]) [[0, 3] ! 0..<[0, 3] ! (0 + 1)])"
    by (simp add: upt_conv_Cons)
  from warp_sample_negative_differs [OF run_item_nine d] run_item_nine d
  show ?thesis by simp
qed

text \<open>
  The trials of \<open>sample_violating_negative_example\<close>, with the margin reference as the code
  holds it, \<open>r = c_float (U[u].dot(V[i]))\<close>: if the first \<open>t\<close> candidates drawn, for some
  \<open>1 \<le> t \<le> max_trials - 1\<close>, end with one that passes the test \<open>r - U[u].dot(V[j]) < 1\<close>
  and hold none before it, the function returns that candidate and \<open>t\<close>; if none of the
  first \<open>max_trials - 1\<close> candidates passes the test, it returns \<open>(-1, max_trials)\<close>; and
  whenever it returns, it has drawn \<open>t \<le> max_trials - 1\<close> candidates and its result is one
  of these two.
\<close>

lemma sample_violating_negative_example_trials:
  assumes "row_dot U u V i = Inr d"
  defines "r \<equiv> c_float d"
  shows
    "(\<forall>t js rs'. 1 \<le> t \<and> t \<le> mt - 1 \<and>
        candidates (length V) vals indices b e ix t rs = Returns (js, rs') \<and>
        violating U V u r (last js) \<and> (\<forall>j\<in>set (butlast js). keeps_margin U V u r j) \<longrightarrow>
        sample_violating_negative_example U V vals indices b e u ix i mt rs =
          Returns ((int (last js), t), rs')) \<and>
     (\<forall>js rs'. candidates (length V) vals indices b e ix (mt - 1) rs = Returns (js, rs') \<and>
        (\<forall>j\<in>set js. keeps_margin U V u r j) \<longrightarrow>
        sample_violating_negative_example U V vals indices b e u ix i mt rs =
          Returns ((- 1, mt), rs')) \<and>
     (\<forall>j N rs'. sample_violating_negative_example U V vals indices b e u ix i mt rs =
          Returns ((j, N), rs') \<longrightarrow>
        (\<exists>t js. t \<le> mt - 1 \<and>
           candidates (length V) vals indices b e ix t rs = Returns (js, rs') \<and>
           (j = - 1 \<and> N = mt \<and> t = mt - 1 \<and> (\<forall>x\<in>set js. keeps_margin U V u r x) \<or>
            1 \<le> t \<and> j = int (last js) \<and> N = t \<and> violating U V u r (last js) \<and>
              (\<forall>x\<in>set (butlast js). keeps_margin U V u r x))))"
proof (intro conjI allI impI)
  fix t js rs'
  assume a: "1 \<le> t \<and> t \<le> mt - 1 \<and>
        candidates (length V) vals indices b e ix t rs = Returns (js, rs') \<and>
        violating U V u r (last js) \<and> (\<forall>j\<in>set (butlast js). keeps_margin U V u r j)"
  then obtain t' where t': "t = Suc t'" by (cases t) auto
  with a have "t' < length [1..<mt]" by simp
  with a t' have "trial_loop U V vals indices b e u ix r mt [1..<mt] rs =
      Returns ((int (last js), [1..<mt] ! t'), rs')"
    by (intro trial_loop_finds) simp_all
  moreover from \<open>t' < length [1..<mt]\<close> t' have "[1..<mt] ! t' = t" by simp
  ultimately show "sample_violating_negative_example U V vals indices b e u ix i mt rs =
      Returns ((int (last js), t), rs')"
    using assms by (simp add: sample_violating_negative_example_def)
next
  fix js rs'
  assume "candidates (length V) vals indices b e ix (mt - 1) rs = Returns (js, rs') \<and>
        (\<forall>j\<in>set js. keeps_margin U V u r j)"
  then have c: "candidates (length V) vals indices b e ix (length [1..<mt]) rs = Returns (js, rs')"
    and k: "\<forall>j\<in>set js. keeps_margin U V u r j"
    by simp_all
  have "trial_loop U V vals indices b e u ix r mt [1..<mt] rs = Returns ((- 1, mt), rs')"
    by (rule trial_loop_gives_up [OF c k])
  then show "sample_violating_negative_example U V vals indices b e u ix i mt rs =
      Returns ((- 1, mt), rs')"
    using assms by (simp add: sample_violating_negative_example_def)
next
  fix j N rs'
  assume "sample_violating_negative_example U V vals indices b e u ix i mt rs =
      Returns ((j, N), rs')"
  with assms have "trial_loop U V vals indices b e u ix r mt [1..<mt] rs = Returns ((j, N), rs')"
    by (simp add: sample_violating_negative_example_def)
  from trial_loop_draws [OF this] obtain t js where t: "t \<le> length [1..<mt]"
    and c: "candidates (length V) vals indices b e ix t rs = Returns (js, rs')"
    and d: "j = - 1 \<and> N = mt \<and> t = length [1..<mt] \<and> (\<forall>x\<in>set js. keeps_margin U V u r x) \<or>
      0 < t \<and> j = int (last js) \<and> N = [1..<mt] ! (t - 1) \<and> violating U V u r (last js) \<and>
        (\<forall>x\<in>set (butlast js). keeps_margin U V u r x)"
    by blast
  have "[1..<mt] ! (t - 1) = t" if "0 < t" using that t by simp
  with t c d show "\<exists>t js. t \<le> mt - 1 \<and>
      candidates (length V) vals indices b e ix t rs = Returns (js, rs') \<and>
      (j = - 1 \<and> N = mt \<and> t = mt - 1 \<and> (\<forall>x\<in>set js. keeps_margin U V u r x) \<or>
       1 \<le> t \<and> j = int (last js) \<and> N = t \<and> violating U V u r (last js) \<and>
         (\<forall>x\<in>set (butlast js). keeps_margin U V u r x))"
    by (intro exI [of _ t] exI [of _ js]) auto
qed

text \<open>
  C3. The function is to return \<open>(j, t)\<close> at the first draw \<open>j\<close> with
  \<open>r - dot(U[u], V[j]) < 1\<close> for \<open>r = dot(U[u], V[i])\<close>, and \<open>(-1, max_trials)\<close> when all
  \<open>max_trials - 1\<close> draws fail that condition. The control flow is as stated
  (\<open>sample_violating_negative_example_trials\<close>), but the code tests the rounded
  reference. With \<open>U = [[1]]\<close>, \<open>V = [[2 - 2^-30], [1]]\<close>, \<open>u = i = 0\<close> and
  \<open>max_trials = 2\<close>, the one draw is item 1, whose margin \<open>(2 - 2^-30) - 1\<close> is below 1:
  the code rounds \<open>r\<close> to 2, finds \<open>2 - 1 < 1\<close> false and gives up with \<open>(-1, 2)\<close>.
  With \<open>V = [[2 + 2^-30], [1 + 2^-31]]\<close> the margin of item 1 is not below 1, and the code
  returns item 1 with \<open>N = 1\<close>.
\<close>

theorem sample_violating_negative_example_float_margin:
  "candidates 2 [] [] 0 0 0 1 [1] = Returns ([1], []) \<and>
   row_dot [[1]] 0 [[2 - 1 / 2 ^ 30], [1]] 0 = Inr (2 - 1 / 2 ^ 30) \<and>
   row_dot [[1]] 0 [[2 - 1 / 2 ^ 30], [1]] 1 = Inr 1 \<and>
   (2 - 1 / 2 ^ 30) - 1 < (1 :: real) \<and>
   sample_violating_negative_example [[1]] [[2 - 1 / 2 ^ 30], [1]] [] [] 0 0 0 0 0 2 [1] =
     Returns ((- 1, 2), []) \<and>
   row_dot [[1]] 0 [[2 + 1 / 2 ^ 30], [1 + 1 / 2 ^ 31]] 0 = Inr (2 + 1 / 2 ^ 30) \<and>
   row_dot [[1]] 0 [[2 + 1 / 2 ^ 30], [1 + 1 / 2 ^ 31]] 1 = Inr (1 + 1 / 2 ^ 31) \<and>
   \<not> (2 + 1 / 2 ^ 30) - (1 + 1 / 2 ^ 31) < (1 :: real) \<and>
   sample_violating_negative_example [[1]] [[2 + 1 / 2 ^ 30], [1 + 1 / 2 ^ 31]] [] []
     0 0 0 0 0 2 [1] = Returns ((1, 1), [])"
proof (intro conjI)
  show "candidates 2 [] [] 0 0 0 1 [1] = Returns ([1], [])"
    by simp
  show "row_dot [[1]] 0 [[2 - 1 / 2 ^ 30], [1]] 0 = Inr (2 - 1 / 2 ^ 30)"
    and "row_dot [[1]] 0 [[2 - 1 / 2 ^ 30], [1]] 1 = Inr 1"
    and "row_dot [[1]] 0 [[2 + 1 / 2 ^ 30], [1 + 1 / 2 ^ 31]] 0 = Inr (2 + 1 / 2 ^ 30)"
    and "row_dot [[1]] 0 [[2 + 1 / 2 ^ 30], [1 + 1 / 2 ^ 31]] 1 = Inr (1 + 1 / 2 ^ 31)"
    by (simp_all add: row_dot_def py_index_def dot_def)
  show "(2 - 1 / 2 ^ 30) - 1 < (1 :: real)"
    and "\<not> (2 + 1 / 2 ^ 30) - (1 + 1 / 2 ^ 31) < (1 :: real)"
    by simp_all
  show "sample_violating_negative_example [[1]] [[2 - 1 / 2 ^ 30], [1]] [] [] 0 0 0 0 0 2 [1] =
      Returns ((- 1, 2), [])"
    by (simp add: sample_violating_negative_example_def row_dot_def py_index_def dot_def
          c_float_below_two [simplified] upt_conv_Cons)
  show "sample_violating_negative_example [[1]] [[2 + 1 / 2 ^ 30], [1 + 1 / 2 ^ 31]] [] []
      0 0 0 0 0 2 [1] = Returns ((1, 1), [])"
    by (simp add: sample_violating_negative_example_def row_dot_def py_index_def dot_def
          c_float_above_two [simplified] upt_conv_Cons)
qed

text \<open>
  C4. With \<open>max_trials = 1\<close>, and the margin reference computed (\<open>U[u]\<close> and \<open>V[i]\<close> are rows
  of equal width), the function returns \<open>(-1, 1)\<close> and the tape as it was given: no
  candidate is drawn, whatever the tape, the ratings and the slice are.
\<close>

theorem sample_violating_negative_example_one_trial:
  "row_dot U u V i = Inr r \<Longrightarrow>
   sample_violating_negative_example U V vals indices b e u ix i 1 rs = Returns ((- 1, 1), rs)"
  by (simp add: sample_violating_negative_example_def)

theorem sample_violating_negative_example_one_trial_witness:
  "row_dot [[1, 2]] 0 [[3, 4], [0, 1]] 1 = Inr 2 \<and>
   sample_violating_negative_example [[1, 2]] [[3, 4], [0, 1]] [] [] 0 0 0 0 1 1 [5, 6] =
     Returns ((- 1, 1), [5, 6])"
proof -
  have rd: "row_dot [[1, 2]] 0 [[3, 4], [0, 1]] 1 = Inr 2"
    by (simp add: row_dot_def py_index_def dot_def)
  from sample_violating_negative_example_one_trial [OF rd] rd show ?thesis by simp
qed

text \<open>
  What \<open>warp_sample\<close> returns for \<open>j\<close>, \<open>N\<close> and \<open>tot_trials\<close>: \<open>j\<close> is an item index (not the
  sentinel \<open>-1\<close>), \<open>N\<close> is the trial count of the one successful attempt,
  \<open>1 \<le> N \<le> max_trials - 1\<close>, and \<open>tot_trials\<close> is the sum of \<open>max_trials\<close> for every
  discarded attempt and of \<open>N\<close>, reduced modulo \<open>2 ^ 32\<close>. As long as the sum stays below
  \<open>2 ^ 32\<close>, \<open>tot_trials\<close> is the sum and is at least \<open>N\<close>.
\<close>

lemma warp_sample_trial_counts:
  assumes "warp_sample U V vals indices indptr thr mt rs = Returns ((u, i, j, N, tot), rs')"
  shows "0 \<le> j \<and> j < int (length V) \<and> 1 \<le> N \<and> N \<le> mt - 1 \<and>
    tot = (discarded_rounds U V vals indices indptr thr mt rs * mt + N) mod 2 ^ 32 \<and>
    (discarded_rounds U V vals indices indptr thr mt rs * mt + N < 2 ^ 32 \<longrightarrow>
       tot = discarded_rounds U V vals indices indptr thr mt rs * mt + N \<and> N \<le> tot)"
  using warp_sample_sound [OF assms] by auto

text \<open>
  C6. The total returned is to be the sum of the trial counts of all attempts, hence at
  least \<open>N\<close>; the docstring calls it the total number of trials taken to find a sample.
  \<open>tot_trials\<close> is a C \<open>unsigned int\<close> and wraps: after 2863311530 discarded attempts with
  \<open>max_trials = 3\<close> and a successful one with \<open>N = 2\<close> the sum is \<open>2 ^ 33\<close>, and the value
  returned is \<open>tot_trials = 0\<close>, below \<open>N\<close>.
\<close>

theorem warp_sample_total_wraps:
  "warp_sample [[1]] [[2], [0], [2]] [1] [0] [0, 1] 1 3
     (concat (replicate 2863311530 [0, 0, 1, 1]) @ [0, 0, 1, 2]) =
   Returns ((0, 0, 2, 2, 0), []) \<and>
   discarded_rounds [[1]] [[2], [0], [2]] [1] [0] [0, 1] 1 3
     (concat (replicate 2863311530 [0, 0, 1, 1]) @ [0, 0, 1, 2]) = 2863311530 \<and>
   2863311530 * 3 + 2 = (2 ^ 33 :: nat) \<and> \<not> (2::nat) \<le> 0"
proof (intro conjI)
  have "warp_loop [[1]] [[2], [0], [2]] [1] [0] [0, 1] 1 3 0
     (concat (replicate 2863311530 [0, 0, 1, 1]) @ [0, 0, 1, 2]) =
    warp_loop [[1]] [[2], [0], [2]] [1] [0] [0, 1] 1 3 ((0 + 3 * 2863311530) mod 2 ^ 32)
      [0, 0, 1, 2]"
    by (rule failed_rounds) simp
  also have "\<dots> = Returns ((0, 0, 2, 2, ((0 + 3 * 2863311530) mod 2 ^ 32 + 2) mod 2 ^ 32), [])"
    by (rule last_round)
  also have "((0 + 3 * 2863311530) mod 2 ^ 32 + 2) mod 2 ^ 32 = (0::nat)"
    by simp
  finally show "warp_sample [[1]] [[2], [0], [2]] [1] [0] [0, 1] 1 3
     (concat (replicate 2863311530 [0, 0, 1, 1]) @ [0, 0, 1, 2]) =
      Returns ((0, 0, 2, 2, 0), [])"
    by (simp only: warp_sample_def)
  show "discarded_rounds [[1]] [[2], [0], [2]] [1] [0] [0, 1] 1 3
     (concat (replicate 2863311530 [0, 0, 1, 1]) @ [0, 0, 1, 2]) = 2863311530"
    by (rule discarded_failed_rounds)
  show "2863311530 * 3 + 2 = (2 ^ 33 :: nat)" by simp
  show "\<not> (2::nat) \<le> 0" by simp
qed

text \<open>
  C10, as amended. The draws are \<open>rand() % num_users\<close> and \<open>rand() % num_items\<close> with the
  counts held in Python objects (untyped parameters), so the remainder is Python's, the
  directive \<open>cdivision\<close> notwithstanding: with a zero count the first draw raises
  \<open>ZeroDivisionError\<close>. In \<open>warp_sample\<close> a zero number of users does so, and with no
  items the lookup \<open>V[i]\<close> raises \<open>IndexError\<close> before any candidate is drawn. Whenever
  a sampler returns, its count is at least 1 and the index drawn lies in
  \<open>[0, num_users)\<close>, respectively \<open>[0, num_items)\<close>.
\<close>

theorem draws_in_range:
  "sample_positive_example thr 0 vals indices indptr (r # rs) = Raises ZeroDivisionError \<and>
   sample_negative_example 0 vals indices b e ix (r # rs) = Raises ZeroDivisionError \<and>
   warp_sample [] V vals indices indptr thr mt (r # rs) = Raises ZeroDivisionError \<and>
   sample_violating_negative_example U [] vals indices b e u' ix i' mt rs = Raises IndexError \<and>
   (\<forall>u ix' i rs'.
      sample_positive_example thr n vals indices indptr rs = Returns ((u, ix', i), rs') \<longrightarrow>
      1 \<le> n \<and> u < n) \<and>
   (\<forall>j rs'.
      sample_negative_example m vals indices b e ix rs = Returns (j, rs') \<longrightarrow>
      1 \<le> m \<and> j < m) \<and>
   (\<forall>u i j N tot rs'.
      warp_sample U V vals indices indptr thr mt rs = Returns ((u, i, j, N, tot), rs') \<longrightarrow>
      1 \<le> length U \<and> 1 \<le> length V \<and> u < length U \<and> 0 \<le> j \<and> j < int (length V))"
proof (intro conjI allI impI)
  show "sample_positive_example thr 0 vals indices indptr (r # rs) = Raises ZeroDivisionError"
    by simp
  show "sample_negative_example 0 vals indices b e ix (r # rs) = Raises ZeroDivisionError"
    by simp
  show "warp_sample [] V vals indices indptr thr mt (r # rs) = Raises ZeroDivisionError"
    by (rule warp_sample_no_users)
  show "sample_violating_negative_example U [] vals indices b e u' ix i' mt rs =
      Raises IndexError"
    by (rule sample_violating_negative_example_no_items)
next
  fix u ix' i rs'
  assume a: "sample_positive_example thr n vals indices indptr rs = Returns ((u, ix', i), rs')"
  from sample_positive_example_sound [OF a] show "1 \<le> n" "u < n" by simp_all
next
  fix j rs'
  assume a: "sample_negative_example m vals indices b e ix rs = Returns (j, rs')"
  from sample_negative_example_sound [OF a] show "1 \<le> m" "j < m" by simp_all
next
  fix u i j N tot rs'
  assume a: "warp_sample U V vals indices indptr thr mt rs = Returns ((u, i, j, N, tot), rs')"
  from warp_sample_sound [OF a]
  show "1 \<le> length U" "1 \<le> length V" "u < length U" "0 \<le> j" "j < int (length V)"
    by auto
qed

theorem draws_in_range_witness:
  "sample_positive_example 5 1 [5, 3, 5] [2, 5, 9] [0, 3] [0, 0] = Returns ((0, 0, 2), []) \<and>
   (1 :: nat) \<le> 1 \<and> (0 :: nat) < 1 \<and>
   sample_negative_example 10 [5, 3, 5] [2, 5, 9] 0 3 0 [12, 9, 5] = Returns (5, []) \<and>
   (1 :: nat) \<le> 10 \<and> (5 :: nat) < 10"
proof -
  have p: "sample_positive_example 5 1 [5, 3, 5] [2, 5, 9] [0, 3] [0, 0] =
      Returns ((0, 0, 2), [])"
    by (simp add: draw_position_def)
  have n: "sample_negative_example 10 [5, 3, 5] [2, 5, 9] 0 3 0 [12, 9, 5] = Returns (5, [])"
    by (simp add: py_index_def upt_conv_Cons)
  from draws_in_range [where n = 1 and thr = 5 and vals = "[5, 3, 5]" and indices = "[2, 5, 9]"
      and indptr = "[0, 3]" and rs = "[0, 0]"] p
  have "(1 :: nat) \<le> 1 \<and> (0 :: nat) < 1" by blast
  moreover
  from draws_in_range [where m = 10 and vals = "[5, 3, 5]" and indices = "[2, 5, 9]"
      and b = 0 and e = 3 and ix = 0 and rs = "[12, 9, 5]"] n
  have "(1 :: nat) \<le> 10 \<and> (5 :: nat) < 10" by blast
  ultimately show ?thesis using p n by simp
qed

text \<open>
  The claim C10 as it was stated has a zero count lead to a division by zero in C and
  not to a raised Python error. With no users, the first draw raises \<open>ZeroDivisionError\<close>.
\<close>

theorem zero_users_counterexample:
  "sample_positive_example 5 0 [5] [0] [0, 1] [7] = Raises ZeroDivisionError"
  by simp

section \<open>Properties of apply\_updates\<close>

subsection \<open>Auxiliary facts\<close>



lemma sum_list_scaled:
  "sum_list (map (\<lambda>x. x * x / (p * p)) w) = sum_list (map (\<lambda>x. x * x) w) / (p * p)"
  for p :: real
  by (induction w) (simp_all add: add_divide_distrib)

lemma l2norm_scaled: "0 < p \<Longrightarrow> l2norm (map (\<lambda>x. x / p) w) = l2norm w / p"
  by (simp add: l2norm_def comp_def sum_list_scaled real_sqrt_divide)

lemma l2norm_projected:
  assumes "0 < C" "C < l2norm w"
  shows "l2norm (map (\<lambda>x. x / (l2norm w / C)) w) = C"
proof -
  from assms have "0 < l2norm w / C" by simp
  from l2norm_scaled [OF this] assms show ?thesis by simp
qed

lemma l2norm_3_4: "l2norm [3, 4] = 5"
proof -
  have "sqrt 25 = sqrt (5 * 5)" by simp
  also have "\<dots> = \<bar>5\<bar>" by (rule real_sqrt_abs2)
  finally show ?thesis by (simp add: l2norm_def)
qed

lemma update_row_projects:
  assumes "C \<noteq> 0" "i < length (h D)" "py_index (length (h F)) row = Some k"
    "iadd (h F ! k) (map ((*) gamma) (h D ! i)) = Some w" "1 < c_float (l2norm w / C)"
  shows "update_row h F D gamma C i row =
    (None, h(F := (h F)[k := map (\<lambda>x. x / c_float (l2norm w / C)) w]))"
  using assms by (simp add: update_row_def)

lemma l2norm_1_1: "l2norm [1, 1] = sqrt 2"
  by (simp add: l2norm_def)

lemma l2norm_above_one: "l2norm [1 + 1 / 2 ^ 30] = 1 + 1 / 2 ^ 30"
proof -
  have "l2norm [1 + 1 / 2 ^ 30] = sqrt ((1 + 1 / 2 ^ 30) * (1 + 1 / 2 ^ 30))"
    by (simp only: l2norm_def list.map sum_list.Cons sum_list.Nil add_0_right)
  also have "\<dots> = \<bar>1 + 1 / 2 ^ 30\<bar>" by (rule real_sqrt_abs2)
  finally show ?thesis by simp
qed




subsection \<open>The claims\<close>

text \<open>
  C5. \<open>apply_updates\<close> fails with an assertion error whenever the number of rows differs
  from the number of delta vectors, and in that case nothing has been mutated: the store
  it leaves is the store it was given, so every row of \<open>F\<close> is as before. (The \<open>assert\<close>
  is the first statement of the function; it is taken as enabled.)
\<close>

theorem apply_updates_length_mismatch:
  "length rows \<noteq> length (h D) \<Longrightarrow>
   apply_updates h F rows D gamma C = (Some AssertionError, h)"
  by (simp add: apply_updates_def)

theorem apply_updates_length_mismatch_witness:
  "length [0::int] \<noteq> length (((\<lambda>a. [])(0 := [[3, 4]], 1 := [[1, 1], [2, 2]])) (1::nat)) \<and>
   apply_updates ((\<lambda>a. [])(0 := [[3, 4]], 1 := [[1, 1], [2, 2]])) 0 [0] 1 1 1 =
     (Some AssertionError, (\<lambda>a. [])(0 := [[3, 4]], 1 := [[1, 1], [2, 2]]))"
  using apply_updates_length_mismatch
    [of "[0]" "(\<lambda>a. [])(0 := [[3, 4]], 1 := [[1, 1], [2, 2]])" 1 0 1 1]
  by simp

text \<open>
  The example of the projection: on \<open>F[row] = [3, 4]\<close> (norm 5) with \<open>delta = [0, 0]\<close>,
  \<open>gamma = 1\<close> and \<open>C = 1\<close> the quotient \<open>p = 5\<close> is a float, and the call rescales the row
  to \<open>[0.6, 0.8]\<close>, whose norm is exactly 1. In general a round of the loop divides the
  incremented row \<open>w\<close> by the rounded \<open>p\<close> when that exceeds 1; the norm of the row stored
  is \<open>C\<close> when \<open>norm / C\<close> is a float.
\<close>

lemma apply_updates_3_4:
  "apply_updates ((\<lambda>a. [])(0 := [[3, 4]], 1 := [[0, 0]])) 0 [0] 1 1 1 =
     (None, (\<lambda>a. [])(0 := [[3 / 5, 4 / 5]], 1 := [[0, 0]])) \<and>
   l2norm [3 / 5, 4 / 5] = 1"
  by (simp add: apply_updates_def update_row_def iadd_def py_index_def l2norm_3_4 c_float_5
        fun_upd_twist)
    (simp add: l2norm_def)

lemma update_row_projects_exactly:
  assumes "0 < C" "i < length (h D)" "py_index (length (h F)) row = Some k"
    "iadd (h F ! k) (map ((*) gamma) (h D ! i)) = Some w" "C < l2norm w"
    "c_float (l2norm w / C) = l2norm w / C"
  shows "update_row h F D gamma C i row =
      (None, h(F := (h F)[k := map (\<lambda>x. x / (l2norm w / C)) w])) \<and>
    l2norm (map (\<lambda>x. x / (l2norm w / C)) w) = C"
proof -
  from assms(1,5,6) have "1 < c_float (l2norm w / C)" by simp
  with assms have "update_row h F D gamma C i row =
      (None, h(F := (h F)[k := map (\<lambda>x. x / c_float (l2norm w / C)) w]))"
    by (intro update_row_projects) simp_all
  with assms(6) l2norm_projected [OF assms(1,5)] show ?thesis by simp
qed

text \<open>
  C7. Whenever the norm of the incremented row exceeds \<open>C\<close>, the row is to be divided by
  \<open>p = norm / C\<close>, so that its new norm is exactly \<open>C\<close>; the comment in the source reads
  "ensure ||F[row]|| <= C". The code rounds \<open>p\<close> to single precision before the test
  \<open>p > 1\<close> and the division. On \<open>F[row] = [1 + 2^-30]\<close> with \<open>delta = [0]\<close>, \<open>gamma = 1\<close>
  and \<open>C = 1\<close> the norm \<open>1 + 2^-30\<close> exceeds \<open>C\<close>, \<open>p\<close> is rounded to 1, and the call
  leaves the row as it is. On \<open>F[row] = [1, 1]\<close> with \<open>delta = [0, 0]\<close> the norm is the
  square root of 2, \<open>p\<close> is rounded down to \<open>11863283 / 2^23\<close>, and the row stored has
  a norm above \<open>C\<close>.
\<close>

theorem apply_updates_float_projection:
  "(1 :: real) < l2norm [1 + 1 / 2 ^ 30] \<and> c_float (l2norm [1 + 1 / 2 ^ 30] / 1) = 1 \<and>
   apply_updates ((\<lambda>a. [])(0 := [[1 + 1 / 2 ^ 30]], 1 := [[0]])) 0 [0] 1 1 1 =
     (None, (\<lambda>a. [])(0 := [[1 + 1 / 2 ^ 30]], 1 := [[0]])) \<and>
   (1 :: real) < l2norm [1, 1] \<and>
   apply_updates ((\<lambda>a. [])(0 := [[1, 1]], 1 := [[0, 0]])) 0 [0] 1 1 1 =
     (None, (\<lambda>a. [])(0 := [[2 ^ 23 / 11863283, 2 ^ 23 / 11863283]], 1 := [[0, 0]])) \<and>
   1 < l2norm [2 ^ 23 / 11863283, 2 ^ 23 / 11863283]"
proof (intro conjI)
  show "(1 :: real) < l2norm [1 + 1 / 2 ^ 30]"
    by (simp only: l2norm_above_one) simp
  show "c_float (l2norm [1 + 1 / 2 ^ 30] / 1) = 1"
    by (simp only: l2norm_above_one div_by_1 c_float_above_one)
  have n: "l2norm [1073741825 / 1073741824] = 1073741825 / 1073741824"
    using l2norm_above_one by simp
  have c: "c_float (1073741825 / 1073741824) = 1"
    using c_float_above_one by simp
  show "apply_updates ((\<lambda>a. [])(0 := [[1 + 1 / 2 ^ 30]], 1 := [[0]])) 0 [0] 1 1 1 =
      (None, (\<lambda>a. [])(0 := [[1 + 1 / 2 ^ 30]], 1 := [[0]]))"
    by (simp add: apply_updates_def update_row_def iadd_def py_index_def n c fun_upd_twist)
  show "(1 :: real) < l2norm [1, 1]"
    by (simp add: l2norm_1_1)
  have p: "1 < c_float (sqrt 2)"
    by (simp add: c_float_sqrt2)
  then show "apply_updates ((\<lambda>a. [])(0 := [[1, 1]], 1 := [[0, 0]])) 0 [0] 1 1 1 =
     (None, (\<lambda>a. [])(0 := [[2 ^ 23 / 11863283, 2 ^ 23 / 11863283]], 1 := [[0, 0]]))"
    by (simp add: apply_updates_def update_row_def iadd_def py_index_def l2norm_1_1
          fun_upd_twist)
      (simp add: c_float_sqrt2)
  have "l2norm [2 ^ 23 / 11863283, 2 ^ 23 / 11863283] =
      l2norm (map (\<lambda>x. x / (11863283 / 2 ^ 23)) [1, 1])"
    by simp
  also have "\<dots> = l2norm [1, 1] / (11863283 / 2 ^ 23)"
    by (rule l2norm_scaled) simp
  finally have "l2norm [2 ^ 23 / 11863283, 2 ^ 23 / 11863283] = sqrt 2 / (11863283 / 2 ^ 23)"
    by (simp only: l2norm_1_1)
  moreover have "11863283 / 2 ^ 23 < sqrt 2"
    by (rule real_less_rsqrt) (simp add: power2_eq_square)
  ultimately show "1 < l2norm [2 ^ 23 / 11863283, 2 ^ 23 / 11863283]"
    by simp
qed






end
